theory Spec2Isabelle
  imports Main "HOL-Library.Sublist"
begin

section \<open>Strings\<close>

text \<open>
  A Python \<^verbatim>\<open>str\<close> is a sequence of Unicode code points, so it is modelled as a list of
  natural numbers. \<open>str\<close> turns an ASCII literal into such a list; \<open>nl\<close> is the code
  point of the line feed.
\<close>

type_synonym pystr = "nat list"

definition str :: "string \<Rightarrow> pystr" where
  "str s = map of_char s"

definition nl :: nat where
  "nl = 10"

text \<open>
  \<^verbatim>\<open>content.find(sub, start)\<close>: the lowest index \<open>i \<ge> start\<close> with
  \<^verbatim>\<open>content[i:i+len(sub)] == sub\<close>, and \<open>-1\<close> when there is none. \<open>find_scan\<close> walks
  the rest of the content, \<open>i\<close> being the index of its first character.
\<close>

fun find_scan :: "'a list \<Rightarrow> 'a list \<Rightarrow> nat \<Rightarrow> int" where
  "find_scan sub [] i = (if sub = [] then int i else - 1)"
| "find_scan sub (x # xs) i =
     (if prefix sub (x # xs) then int i else find_scan sub xs (Suc i))"

definition str_find :: "'a list \<Rightarrow> 'a list \<Rightarrow> nat \<Rightarrow> int" where
  "str_find content sub start =
     (if length content < start then - 1 else find_scan sub (drop start content) start)"

text \<open>\<^verbatim>\<open>sep.join(lines)\<close>\<close>

fun join :: "'a list \<Rightarrow> 'a list list \<Rightarrow> 'a list" where
  "join sep [] = []"
| "join sep [l] = l"
| "join sep (l # ls) = l @ sep @ join sep ls"

section \<open>The section splice\<close>

text \<open>
  Lines 131 to 147 of \<^verbatim>\<open>update_readme_status\<close>, with the two markers and the joined
  section text as parameters:
  \<^verbatim>\<open>
    start_idx = content.find(start_marker)
    if start_idx == -1:
        content += "\n\n" + "\n".join(status_section)
    else:
        end_idx = content.find(end_marker, start_idx + len(start_marker))
        if end_idx == -1:
            end_idx = len(content)
        content = (content[:start_idx] + "\n".join(status_section) + "\n\n" + content[end_idx:])
  \<close>
\<close>

definition splice_section :: "pystr \<Rightarrow> pystr \<Rightarrow> pystr \<Rightarrow> pystr \<Rightarrow> pystr" where
  "splice_section content start_marker end_marker section =
     (let start_idx = str_find content start_marker 0 in
      if start_idx = - 1 then content @ [nl, nl] @ section
      else
        let end_idx = str_find content end_marker (nat start_idx + length start_marker);
            end_idx = (if end_idx = - 1 then int (length content) else end_idx)
        in take (nat start_idx) content @ section @ [nl, nl] @ drop (nat end_idx) content)"

definition start_marker :: pystr where
  "start_marker = str ''## Dependency Status''"

definition end_marker :: pystr where
  "end_marker = str ''##''"

section \<open>The external tool and its JSON output\<close>

text \<open>
  What \<^verbatim>\<open>json.loads\<close> returns: Python's \<^verbatim>\<open>None\<close>, \<^verbatim>\<open>bool\<close>, numbers (kept as their
  lexeme: an \<^verbatim>\<open>int\<close> or a \<^verbatim>\<open>float\<close>), \<^verbatim>\<open>str\<close>, \<^verbatim>\<open>list\<close> and \<^verbatim>\<open>dict\<close> (its items,
  in insertion order, with distinct keys).
\<close>

datatype json =
    JNull
  | JBool bool
  | JNum pystr
  | JStr pystr
  | JArr "json list"
  | JObj "(pystr \<times> json) list"

text \<open>
  The exceptions that leave the script's functions. \<open>Unmodelled\<close> is not an exception:
  it marks a run in which a \<^verbatim>\<open>name\<close>, \<^verbatim>\<open>version\<close> or \<^verbatim>\<open>latest\<close> value that is not a string
  reaches the table, the report or the README, where the script hands it to
  \<^verbatim>\<open>rich\<close>, to \<^verbatim>\<open>==\<close> and to string formatting; this development does not follow such
  values further.
\<close>

datatype error =
    FileNotFoundError
  | UnicodeDecodeError
  | RecursionError
  | ValueError
  | KeyError
  | TypeError
  | MarkupError
  | UnicodeEncodeError
  | Unmodelled

text \<open>
  The captured standard output of the tool. The text itself is not represented, only
  what it is and what \<^verbatim>\<open>json.loads\<close> makes of it:
  \<^item> \<open>Rejected\<close>: text that is not JSON and on which \<^verbatim>\<open>json.loads\<close> raises
    \<^verbatim>\<open>JSONDecodeError\<close>;
  \<^item> \<open>JSON v\<close>: JSON text, decoded to \<open>v\<close>;
  \<^item> \<open>NonStandard v\<close>: text that is not JSON and that \<^verbatim>\<open>json.loads\<close> decodes all the
    same, because it takes the literals \<^verbatim>\<open>NaN\<close>, \<^verbatim>\<open>Infinity\<close> and \<^verbatim>\<open>-Infinity\<close> for
    floats (\<open>JNum\<close> with that lexeme);
  \<^item> \<open>LoadsRaises e b\<close>: text on which \<^verbatim>\<open>json.loads\<close> raises an exception \<open>e\<close> that is
    not a \<^verbatim>\<open>JSONDecodeError\<close>: \<^verbatim>\<open>RecursionError\<close> when the text is nested too deeply,
    \<^verbatim>\<open>ValueError\<close> when an integer has more digits than the interpreter converts;
    \<open>b\<close> tells whether the text is JSON.
\<close>

datatype captured = Rejected | JSON json | NonStandard json | LoadsRaises error bool

fun valid_json :: "captured \<Rightarrow> bool" where
  "valid_json Rejected = False"
| "valid_json (JSON v) = True"
| "valid_json (NonStandard v) = False"
| "valid_json (LoadsRaises e b) = b"

text \<open>\<^verbatim>\<open>json.loads(result.stdout)\<close>\<close>

datatype loads_result = JSONDecodeError | RaisesOther error | Returns json

fun json_loads :: "captured \<Rightarrow> loads_result" where
  "json_loads Rejected = JSONDecodeError"
| "json_loads (JSON v) = Returns v"
| "json_loads (NonStandard v) = Returns v"
| "json_loads (LoadsRaises e b) = RaisesOther e"

text \<open>
  \<^verbatim>\<open>subprocess.run(["poetry", "show", "--outdated", "--json"], capture_output=True, text=True)\<close>:
  the executable is not found (\<^verbatim>\<open>FileNotFoundError\<close>), the bytes that the process
  printed cannot be decoded to text (\<^verbatim>\<open>UnicodeDecodeError\<close>), or the process completes
  with a return code and its standard output.
\<close>

datatype run_result = CommandNotFound | OutputNotDecodable | Completed int captured

text \<open>\<^verbatim>\<open>pkg[key]\<close> with a string key.\<close>

fun subscript :: "json \<Rightarrow> pystr \<Rightarrow> error + json" where
  "subscript (JObj items) key =
     (case map_of items key of None \<Rightarrow> Inl KeyError | Some v \<Rightarrow> Inr v)"
| "subscript _ key = Inl TypeError"

text \<open>
  \<^verbatim>\<open>for pkg in packages\<close>: a list gives its elements, a dict its keys, a string its
  characters (each a string of length one); anything else is not iterable.
\<close>

fun iterate :: "json \<Rightarrow> error + json list" where
  "iterate (JArr xs) = Inr xs"
| "iterate (JObj items) = Inr (map (\<lambda>kv. JStr (fst kv)) items)"
| "iterate (JStr s) = Inr (map (\<lambda>c. JStr [c]) s)"
| "iterate _ = Inl TypeError"

text \<open>
  The body of the loop of \<^verbatim>\<open>check_updates\<close>, \<open>updates\<close> being the list built so far:
  \<^verbatim>\<open>updates.append((pkg["name"], pkg["version"], pkg["latest"]))\<close>
\<close>

fun collect :: "json list \<Rightarrow> (json \<times> json \<times> json) list \<Rightarrow> error + (json \<times> json \<times> json) list" where
  "collect [] updates = Inr updates"
| "collect (pkg # pkgs) updates =
     (case subscript pkg (str ''name'') of
        Inl e \<Rightarrow> Inl e
      | Inr n \<Rightarrow>
          (case subscript pkg (str ''version'') of
             Inl e \<Rightarrow> Inl e
           | Inr v \<Rightarrow>
               (case subscript pkg (str ''latest'') of
                  Inl e \<Rightarrow> Inl e
                | Inr l \<Rightarrow> collect pkgs (updates @ [(n, v, l)]))))"

section \<open>The state of a run\<close>

text \<open>What \<^verbatim>\<open>console.print\<close> was called with: a text, or the table with its rows.\<close>

datatype event = Print pystr | PrintTable "pystr list list"

record entry =
  name :: pystr
  current :: pystr
  latest :: pystr
  needs_update :: bool

record report =
  timestamp :: pystr
  packages :: "entry list"

text \<open>
  What a run reads from outside:
  \<^item> the result of the \<open>n\<close>-th run of the tool (counted from 0);
  \<^item> the clock in the three formats the script asks for;
  \<^item> what \<^verbatim>\<open>console.print(table)\<close> raises for a table with the given rows, if
    anything: \<^verbatim>\<open>rich\<close> reads every cell as markup and raises \<^verbatim>\<open>MarkupError\<close> on a
    closing tag that closes nothing, and the console may be unable to encode a
    character (\<^verbatim>\<open>UnicodeEncodeError\<close>);
  \<^item> the code points that the encoding of text files can encode (with UTF-8, all but
    the surrogates);
  \<^item> \<^verbatim>\<open>os.linesep\<close>, which takes the place of every line feed in a text file that is
    written.
\<close>

record env =
  poetry_show_outdated :: "nat \<Rightarrow> run_result"
  now_isoformat :: pystr
  now_dashed :: pystr
  now_compact :: pystr
  table_print_error :: "pystr list list \<Rightarrow> error option"
  encodable :: "nat \<Rightarrow> bool"
  linesep :: pystr

text \<open>
  The text in a file, as decoding its bytes gives it, or a file whose bytes cannot be
  decoded.
\<close>

datatype file_text = Decodes pystr | NotDecodable

text \<open>
  What a run changes: \<^verbatim>\<open>README.md\<close> (\<open>None\<close> when it does not exist), the report files
  by path (a file holds the report that \<^verbatim>\<open>json.dump\<close> wrote), the console, and how
  often the tool has been run. Failures of the operating system (a full disk, missing
  permissions, a directory named \<^verbatim>\<open>README.md\<close>) and directories are not represented; the
  texts that the script itself prints are taken to be printed.
\<close>

record world =
  readme :: "file_text option"
  files :: "pystr \<rightharpoonup> report"
  console :: "event list"
  tool_runs :: nat

definition console_print :: "event \<Rightarrow> world \<Rightarrow> world" where
  "console_print e w = w\<lparr>console := console w @ [e]\<rparr>"

section \<open>The functions of the script\<close>

definition check_updates :: "env \<Rightarrow> world \<Rightarrow> (error + (json \<times> json \<times> json) list) \<times> world" where
  "check_updates env w =
     (let w1 = w\<lparr>tool_runs := Suc (tool_runs w)\<rparr> in
      case poetry_show_outdated env (tool_runs w) of
        CommandNotFound \<Rightarrow> (Inl FileNotFoundError, w1)
      | OutputNotDecodable \<Rightarrow> (Inl UnicodeDecodeError, w1)
      | Completed returncode stdout \<Rightarrow>
          (case json_loads stdout of
             JSONDecodeError \<Rightarrow>
               (Inr [], console_print (Print (str ''[red]Error parsing poetry output[/red]'')) w1)
           | RaisesOther e \<Rightarrow> (Inl e, w1)
           | Returns decoded \<Rightarrow>
               (case iterate decoded of
                  Inl e \<Rightarrow> (Inl e, w1)
                | Inr pkgs \<Rightarrow> (collect pkgs [], w1))))"

fun as_str :: "json \<Rightarrow> pystr option" where
  "as_str (JStr s) = Some s"
| "as_str _ = None"

fun str_triples :: "(json \<times> json \<times> json) list \<Rightarrow> (pystr \<times> pystr \<times> pystr) list option" where
  "str_triples [] = Some []"
| "str_triples ((n, c, l) # ts) =
     (case (as_str n, as_str c, as_str l, str_triples ts) of
        (Some n', Some c', Some l', Some ts') \<Rightarrow> Some ((n', c', l') # ts')
      | _ \<Rightarrow> None)"

text \<open>The check mark is U+2713, the clockwise gapped circle arrow is U+27F3.\<close>

definition status_text :: "pystr \<Rightarrow> pystr \<Rightarrow> pystr" where
  "status_text cur lat =
     (if cur = lat then 10003 # str '' Up to date'' else 10227 # str '' Update available'')"

definition color :: "pystr \<Rightarrow> pystr \<Rightarrow> pystr" where
  "color cur lat = (if cur = lat then str ''green'' else str ''yellow'')"

definition table_row :: "pystr \<times> pystr \<times> pystr \<Rightarrow> pystr list" where
  "table_row t =
     (case t of (n, cur, lat) \<Rightarrow>
        [n, cur, lat,
         str ''['' @ color cur lat @ str '']'' @ status_text cur lat @
         str ''[/'' @ color cur lat @ str '']''])"

definition report_entry :: "pystr \<times> pystr \<times> pystr \<Rightarrow> entry" where
  "report_entry t =
     (case t of (n, cur, lat) \<Rightarrow>
        \<lparr>name = n, current = cur, latest = lat, needs_update = (cur \<noteq> lat)\<rparr>)"

text \<open>
  Lines 78 to 96: the report is built from \<open>updates\<close> and written with
  \<^verbatim>\<open>open(output_file, 'w')\<close>, which truncates the file.
\<close>

definition save_report :: "env \<Rightarrow> pystr \<Rightarrow> (pystr \<times> pystr \<times> pystr) list \<Rightarrow> world \<Rightarrow> world" where
  "save_report env output_file updates w =
     (let report = \<lparr>timestamp = now_isoformat env, packages = map report_entry updates\<rparr>;
          w1 = w\<lparr>files := (files w)(output_file \<mapsto> report)\<rparr>
      in console_print (Print (nl # str ''Report saved to: '' @ output_file)) w1)"

text \<open>
  \<^verbatim>\<open>get_installed_packages()\<close> is called for \<open>installed\<close>, which is never used; it reads
  the interpreter's package set and changes nothing, and is left out.
\<close>

definition generate_dependency_report :: "env \<Rightarrow> pystr option \<Rightarrow> world \<Rightarrow> (error + unit) \<times> world" where
  "generate_dependency_report env output_file w =
     (case check_updates env w of
        (Inl e, w1) \<Rightarrow> (Inl e, w1)
      | (Inr updates, w1) \<Rightarrow>
          (case str_triples updates of
             None \<Rightarrow> (Inl Unmodelled, w1)
           | Some ts \<Rightarrow>
               (case table_print_error env (map table_row ts) of
                  Some e \<Rightarrow> (Inl e, w1)
                | None \<Rightarrow>
                    (let w2 = console_print (PrintTable (map table_row ts)) w1 in
                     case output_file of
                       None \<Rightarrow> (Inr (), w2)
                     | Some path \<Rightarrow> (Inr (), save_report env path ts w2)))))"

definition status_section :: "env \<Rightarrow> (pystr \<times> pystr \<times> pystr) list \<Rightarrow> pystr list" where
  "status_section env updates =
     [str ''## Dependency Status (Updated: '' @ now_dashed env @ str '')'',
      [],
      str ''### Core Dependencies'',
      str ''| Package | Version | Status |'',
      str ''|---------|---------|--------|''] @
     map (\<lambda>(n, cur, lat).
            str ''| '' @ n @ str '' | '' @ cur @ str '' | '' @ status_text cur lat @ str '' |'')
         updates"

text \<open>
  \<^verbatim>\<open>readme_path.read_text()\<close>: the file is opened in text mode, which decodes it and turns
  every \<^verbatim>\<open>"\r\n"\<close> and every other \<^verbatim>\<open>"\r"\<close> into \<^verbatim>\<open>"\n"\<close>.
\<close>

fun universal_newlines :: "pystr \<Rightarrow> pystr" where
  "universal_newlines [] = []"
| "universal_newlines [c] = (if c = 13 then [nl] else [c])"
| "universal_newlines (c # d # cs) =
     (if c = 13 \<and> d = nl then nl # universal_newlines cs
      else if c = 13 then nl # universal_newlines (d # cs)
      else c # universal_newlines (d # cs))"

fun read_text :: "file_text \<Rightarrow> error + pystr" where
  "read_text (Decodes t) = Inr (universal_newlines t)"
| "read_text NotDecodable = Inl UnicodeDecodeError"

text \<open>
  \<^verbatim>\<open>readme_path.write_text(content)\<close>: the file is opened for writing, which empties it;
  the text is then encoded, which raises \<^verbatim>\<open>UnicodeEncodeError\<close> when a character has no
  encoding and leaves the file empty; otherwise the text is written with \<^verbatim>\<open>os.linesep\<close>
  for every \<^verbatim>\<open>"\n"\<close>.
\<close>

definition write_newlines :: "pystr \<Rightarrow> pystr \<Rightarrow> pystr" where
  "write_newlines sep t = concat (map (\<lambda>c. if c = nl then sep else [c]) t)"

definition write_text :: "env \<Rightarrow> pystr \<Rightarrow> error + file_text" where
  "write_text env t =
     (if list_all (encodable env) t then Inr (Decodes (write_newlines (linesep env) t))
      else Inl UnicodeEncodeError)"

definition update_readme_status :: "env \<Rightarrow> world \<Rightarrow> (error + unit) \<times> world" where
  "update_readme_status env w =
     (case readme w of
        None \<Rightarrow> (Inr (), console_print (Print (str ''[red]README.md not found[/red]'')) w)
      | Some file \<Rightarrow>
          (case check_updates env w of
             (Inl e, w1) \<Rightarrow> (Inl e, w1)
           | (Inr updates, w1) \<Rightarrow>
               (case str_triples updates of
                  None \<Rightarrow> (Inl Unmodelled, w1)
                | Some ts \<Rightarrow>
                    (case read_text file of
                       Inl e \<Rightarrow> (Inl e, w1)
                     | Inr content \<Rightarrow>
                         (let content' =
                                splice_section content start_marker end_marker
                                  (join [nl] (status_section env ts))
                          in case write_text env content' of
                               Inl e \<Rightarrow> (Inl e, w1\<lparr>readme := Some (Decodes [])\<rparr>)
                             | Inr written \<Rightarrow>
                                 (Inr (),
                                  console_print
                                    (Print (str ''[green]Updated dependency status in README.md[/green]''))
                                    (w1\<lparr>readme := Some written\<rparr>)))))))"

definition report_path :: "env \<Rightarrow> pystr" where
  "report_path env =
     str ''reports/dependencies'' @ str ''/'' @
     str ''dependency_report_'' @ now_compact env @ str ''.json''"

definition main :: "env \<Rightarrow> world \<Rightarrow> (error + unit) \<times> world" where
  "main env w =
     (let w0 = console_print
                 (Print (nl # str ''[bold]Document Processing Platform - Dependency Management[/bold]'' @ [nl]))
                 w
      in case generate_dependency_report env (Some (report_path env)) w0 of
           (Inl e, w1) \<Rightarrow> (Inl e, w1)
         | (Inr u, w1) \<Rightarrow>
             (case update_readme_status env w1 of
                (Inl e, w2) \<Rightarrow> (Inl e, w2)
              | (Inr u', w2) \<Rightarrow>
                  (Inr (),
                   console_print (Print (str ''2. Updated README.md with current status''))
                     (console_print (Print (str ''1. Generated dependency report: '' @ report_path env))
                        (console_print
                           (Print (nl # str ''[green]Dependency management tasks completed:[/green]''))
                           w2)))))"

section \<open>Sample inputs\<close>

text \<open>
  A POSIX system with UTF-8 text files, on 2 January 2024, and a console that prints
  every table. The tool's first run gives \<open>first_run\<close>, every later one \<open>later_runs\<close>.
\<close>

definition sample_env :: "run_result \<Rightarrow> run_result \<Rightarrow> env" where
  "sample_env first_run later_runs =
     \<lparr>poetry_show_outdated = (\<lambda>n. if n = 0 then first_run else later_runs),
      now_isoformat = str ''2024-01-02T03:04:05'',
      now_dashed = str ''2024-01-02'',
      now_compact = str ''20240102'',
      table_print_error = (\<lambda>rows. None),
      encodable = (\<lambda>c. c < 55296 \<or> 57343 < c),
      linesep = [nl]\<rparr>"

definition sample_world :: "pystr option \<Rightarrow> world" where
  "sample_world r =
     \<lparr>readme = map_option Decodes r, files = Map.empty, console = [], tool_runs = 0\<rparr>"

definition package_object :: "string \<Rightarrow> string \<Rightarrow> string \<Rightarrow> json" where
  "package_object n v l =
     JObj [(str ''name'', JStr (str n)), (str ''version'', JStr (str v)),
           (str ''latest'', JStr (str l))]"

definition sample_readme :: pystr where
  "sample_readme =
     str ''# T\<newline>## Dependency Status\<newline>old\<newline>## Other\<newline>keep''"

section \<open>The string search\<close>

lemma find_scan_range: "find_scan sub xs i = - 1 \<or> (\<exists>j. find_scan sub xs i = int j \<and> i \<le> j \<and> j \<le> i + length xs)"
proof (induction xs arbitrary: i)
  case Nil
  then show ?case by simp
next
  case (Cons x xs)
  show ?case
  proof (cases "prefix sub (x # xs)")
    case True
    then show ?thesis by simp
  next
    case False
    from Cons.IH [of "Suc i"] False show ?thesis by auto
  qed
qed

lemma find_scan_none: "find_scan sub xs i = - 1 \<longleftrightarrow> (\<forall>k\<le>length xs. \<not> prefix sub (drop k xs))"
proof (induction xs arbitrary: i)
  case Nil
  then show ?case by simp
next
  case (Cons x xs)
  show ?case
  proof (cases "prefix sub (x # xs)")
    case True
    then have "find_scan sub (x # xs) i \<noteq> - 1" by simp
    moreover from True have "\<exists>k\<le>length (x # xs). prefix sub (drop k (x # xs))"
      by (intro exI [of _ 0]) simp
    ultimately show ?thesis by blast
  next
    case False
    have "(\<forall>k\<le>length (x # xs). \<not> prefix sub (drop k (x # xs))) \<longleftrightarrow> (\<forall>k\<le>length xs. \<not> prefix sub (drop k xs))"
    proof
      assume h: "\<forall>k\<le>length (x # xs). \<not> prefix sub (drop k (x # xs))"
      show "\<forall>k\<le>length xs. \<not> prefix sub (drop k xs)"
      proof (intro allI impI)
        fix k assume "k \<le> length xs"
        with h have "\<not> prefix sub (drop (Suc k) (x # xs))" by (metis Suc_le_mono length_Cons)
        then show "\<not> prefix sub (drop k xs)" by simp
      qed
    next
      assume h: "\<forall>k\<le>length xs. \<not> prefix sub (drop k xs)"
      show "\<forall>k\<le>length (x # xs). \<not> prefix sub (drop k (x # xs))"
      proof (intro allI impI)
        fix k assume k: "k \<le> length (x # xs)"
        show "\<not> prefix sub (drop k (x # xs))"
        proof (cases k)
          case 0
          with False show ?thesis by simp
        next
          case (Suc m)
          with k h show ?thesis by simp
        qed
      qed
    qed
    with False Cons.IH [of "Suc i"] show ?thesis by simp
  qed
qed

lemma find_scan_some:
  "find_scan sub xs i = int j \<longleftrightarrow>
     i \<le> j \<and> j - i \<le> length xs \<and> prefix sub (drop (j - i) xs) \<and> (\<forall>k<j - i. \<not> prefix sub (drop k xs))"
proof (induction xs arbitrary: i)
  case Nil
  then show ?case by auto
next
  case (Cons x xs)
  show ?case
  proof (cases "prefix sub (x # xs)")
    case True
    have "j = i" if "i \<le> j" and "\<forall>k<j - i. \<not> prefix sub (drop k (x # xs))"
    proof (rule ccontr)
      assume "j \<noteq> i"
      with that(1) have "0 < j - i" by arith
      with that(2) have "\<not> prefix sub (drop 0 (x # xs))" by blast
      with True show False by simp
    qed
    with True show ?thesis by auto
  next
    case False
    have step: "find_scan sub (x # xs) i = find_scan sub xs (Suc i)"
      using False by simp
    show ?thesis
    proof
      assume "find_scan sub (x # xs) i = int j"
      with step Cons.IH [of "Suc i"] have a: "Suc i \<le> j" "j - Suc i \<le> length xs"
        "prefix sub (drop (j - Suc i) xs)" "\<forall>k<j - Suc i. \<not> prefix sub (drop k xs)"
        by auto
      from a(1) have ji: "j - i = Suc (j - Suc i)" by arith
      have "\<forall>k<j - i. \<not> prefix sub (drop k (x # xs))"
      proof (intro allI impI)
        fix k assume k: "k < j - i"
        show "\<not> prefix sub (drop k (x # xs))"
        proof (cases k)
          case 0
          with False show ?thesis by simp
        next
          case (Suc m)
          with k ji a(4) show ?thesis by simp
        qed
      qed
      with a ji show "i \<le> j \<and> j - i \<le> length (x # xs) \<and> prefix sub (drop (j - i) (x # xs)) \<and>
        (\<forall>k<j - i. \<not> prefix sub (drop k (x # xs)))"
        by simp
    next
      assume r: "i \<le> j \<and> j - i \<le> length (x # xs) \<and> prefix sub (drop (j - i) (x # xs)) \<and>
        (\<forall>k<j - i. \<not> prefix sub (drop k (x # xs)))"
      have "j \<noteq> i"
      proof
        assume "j = i"
        with r have "prefix sub (drop 0 (x # xs))" by simp
        with False show False by simp
      qed
      with r have a: "Suc i \<le> j" by simp
      then have ji: "j - i = Suc (j - Suc i)" by arith
      have "\<forall>k<j - Suc i. \<not> prefix sub (drop k xs)"
      proof (intro allI impI)
        fix k assume "k < j - Suc i"
        with ji have "Suc k < j - i" by simp
        with r have "\<not> prefix sub (drop (Suc k) (x # xs))" by blast
        then show "\<not> prefix sub (drop k xs)" by simp
      qed
      with r ji a have "find_scan sub xs (Suc i) = int j"
        using Cons.IH [of "Suc i"] by simp
      with step show "find_scan sub (x # xs) i = int j" by simp
    qed
  qed
qed

lemma str_find_none:
  "str_find c sub st = - 1 \<longleftrightarrow> (\<forall>k. st \<le> k \<and> k \<le> length c \<longrightarrow> \<not> prefix sub (drop k c))"
proof (cases "length c < st")
  case True
  then show ?thesis by (auto simp: str_find_def)
next
  case False
  have "(\<forall>k\<le>length (drop st c). \<not> prefix sub (drop k (drop st c))) \<longleftrightarrow>
        (\<forall>k. st \<le> k \<and> k \<le> length c \<longrightarrow> \<not> prefix sub (drop k c))"
  proof
    assume h: "\<forall>k\<le>length (drop st c). \<not> prefix sub (drop k (drop st c))"
    show "\<forall>k. st \<le> k \<and> k \<le> length c \<longrightarrow> \<not> prefix sub (drop k c)"
    proof (intro allI impI)
      fix k assume k: "st \<le> k \<and> k \<le> length c"
      then have "k - st \<le> length (drop st c)" by (simp add: diff_le_mono)
      with h have "\<not> prefix sub (drop (k - st) (drop st c))" by blast
      with k show "\<not> prefix sub (drop k c)" by simp
    qed
  next
    assume h: "\<forall>k. st \<le> k \<and> k \<le> length c \<longrightarrow> \<not> prefix sub (drop k c)"
    show "\<forall>k\<le>length (drop st c). \<not> prefix sub (drop k (drop st c))"
    proof (intro allI impI)
      fix k assume "k \<le> length (drop st c)"
      with False have "st \<le> k + st \<and> k + st \<le> length c" by simp
      with h have "\<not> prefix sub (drop (k + st) c)" by blast
      then show "\<not> prefix sub (drop k (drop st c))" by simp
    qed
  qed
  with False show ?thesis by (simp add: str_find_def find_scan_none)
qed

lemma str_find_some:
  "str_find c sub st = int j \<longleftrightarrow>
     st \<le> j \<and> j \<le> length c \<and> prefix sub (drop j c) \<and> (\<forall>k. st \<le> k \<and> k < j \<longrightarrow> \<not> prefix sub (drop k c))"
proof (cases "length c < st")
  case True
  then show ?thesis by (auto simp: str_find_def)
next
  case False
  show ?thesis
  proof
    assume "str_find c sub st = int j"
    with False have f: "st \<le> j" "j - st \<le> length (drop st c)" "prefix sub (drop (j - st) (drop st c))"
      "\<forall>k<j - st. \<not> prefix sub (drop k (drop st c))"
      by (auto simp: str_find_def find_scan_some)
    have "\<forall>k. st \<le> k \<and> k < j \<longrightarrow> \<not> prefix sub (drop k c)"
    proof (intro allI impI)
      fix k assume k: "st \<le> k \<and> k < j"
      then have "k - st < j - st" by arith
      with f(4) have "\<not> prefix sub (drop (k - st) (drop st c))" by blast
      with k show "\<not> prefix sub (drop k c)" by simp
    qed
    with f False show "st \<le> j \<and> j \<le> length c \<and> prefix sub (drop j c) \<and>
      (\<forall>k. st \<le> k \<and> k < j \<longrightarrow> \<not> prefix sub (drop k c))"
      by simp
  next
    assume r: "st \<le> j \<and> j \<le> length c \<and> prefix sub (drop j c) \<and>
      (\<forall>k. st \<le> k \<and> k < j \<longrightarrow> \<not> prefix sub (drop k c))"
    have "\<forall>k<j - st. \<not> prefix sub (drop k (drop st c))"
    proof (intro allI impI)
      fix k assume "k < j - st"
      then have "st \<le> k + st \<and> k + st < j" by arith
      with r have "\<not> prefix sub (drop (k + st) c)" by blast
      then show "\<not> prefix sub (drop k (drop st c))" by simp
    qed
    moreover from r have "j - st \<le> length (drop st c)" by (simp add: diff_le_mono)
    moreover from r have "prefix sub (drop (j - st) (drop st c))" by simp
    moreover from r have "st \<le> j" by simp
    ultimately have "find_scan sub (drop st c) st = int j"
      by (simp only: find_scan_some simp_thms)
    with False show "str_find c sub st = int j"
      by (simp add: str_find_def)
  qed
qed

lemma str_find_cases:
  "str_find c sub st = - 1 \<or> (\<exists>j. str_find c sub st = int j \<and> st \<le> j \<and> j \<le> length c)"
  using find_scan_range [of sub "drop st c" st] by (auto simp: str_find_def)

lemma sublist_iff_prefix_drop:
  "sublist sub c \<longleftrightarrow> (\<exists>k\<le>length c. prefix sub (drop k c))"
proof
  assume "sublist sub c"
  then obtain ps ss where c: "c = ps @ sub @ ss" by (auto simp: sublist_def)
  then have "prefix sub (drop (length ps) c)" by simp
  moreover from c have "length ps \<le> length c" by simp
  ultimately show "\<exists>k\<le>length c. prefix sub (drop k c)" by blast
next
  assume "\<exists>k\<le>length c. prefix sub (drop k c)"
  then obtain k zs where "drop k c = sub @ zs" by (auto simp: prefix_def)
  then have "c = take k c @ sub @ zs" by (metis append_take_drop_id)
  then show "sublist sub c" by (auto simp: sublist_def)
qed

section \<open>Facts about the splice\<close>

lemma prefix_short:
  assumes "prefix p (u @ x)" and "length p \<le> length u"
  shows "prefix p (u @ y)"
proof -
  from assms have "prefix p u"
    by (auto simp: prefix_append)
  then show ?thesis by (rule prefix_prefix)
qed

lemma drop_append_le:
  "k \<le> length a \<Longrightarrow> drop k (a @ b) = drop k a @ b"
  by simp

lemma prefix_length_drop:
  assumes "prefix p (drop s c)" and "s \<le> length c"
  shows "s + length p \<le> length c"
proof -
  from assms(1) have "length p \<le> length (drop s c)" by (rule prefix_length_le)
  with assms(2) show ?thesis by simp
qed

text \<open>The end index that the splice uses.\<close>

lemma end_index_exists:
  assumes "st \<le> length c"
  shows "\<exists>e. st \<le> e \<and> e \<le> length c \<and>
           (\<forall>j. st \<le> j \<and> j < e \<longrightarrow> \<not> prefix em (drop j c)) \<and>
           (prefix em (drop e c) \<or>
            (e = length c \<and> (\<forall>j. st \<le> j \<and> j \<le> length c \<longrightarrow> \<not> prefix em (drop j c)))) \<and>
           nat (if str_find c em st = - 1 then int (length c) else str_find c em st) = e"
proof (cases "str_find c em st = - 1")
  case True
  then have "\<forall>j. st \<le> j \<and> j \<le> length c \<longrightarrow> \<not> prefix em (drop j c)"
    by (simp add: str_find_none)
  with True assms show ?thesis
    by (intro exI [of _ "length c"]) simp
next
  case False
  with str_find_cases [of c em st] obtain j where j: "str_find c em st = int j"
    by blast
  from iffD1 [OF str_find_some j]
  have "st \<le> j \<and> j \<le> length c \<and> prefix em (drop j c) \<and>
    (\<forall>k. st \<le> k \<and> k < j \<longrightarrow> \<not> prefix em (drop k c))" .
  with j False show ?thesis
    by (intro exI [of _ j]) simp
qed

lemma end_index_unique:
  assumes "st \<le> e" "e \<le> length c"
    and "\<forall>j. st \<le> j \<and> j < e \<longrightarrow> \<not> prefix em (drop j c)"
    and "prefix em (drop e c) \<or> e = length c"
  shows "nat (if str_find c em st = - 1 then int (length c) else str_find c em st) = e"
proof (cases "str_find c em st = - 1")
  case True
  then have "\<forall>j. st \<le> j \<and> j \<le> length c \<longrightarrow> \<not> prefix em (drop j c)"
    by (simp add: str_find_none)
  with assms have "e = length c" by blast
  with True show ?thesis by simp
next
  case False
  with str_find_cases [of c em st] obtain j where j: "str_find c em st = int j"
    by blast
  from iffD1 [OF str_find_some j]
  have jp: "st \<le> j" "j \<le> length c" "prefix em (drop j c)"
    "\<forall>k. st \<le> k \<and> k < j \<longrightarrow> \<not> prefix em (drop k c)"
    by blast+
  have "\<not> j < e" using assms(3) jp(1,3) by blast
  moreover have "\<not> e < j"
  proof
    assume "e < j"
    with jp(4) assms(1) have "\<not> prefix em (drop e c)" by blast
    with assms(4) have "e = length c" by blast
    with \<open>e < j\<close> jp(2) show False by simp
  qed
  ultimately have "j = e" by arith
  with j False show ?thesis by simp
qed

lemma splice_section_found:
  assumes "s \<le> length c" "prefix sm (drop s c)" "\<forall>i<s. \<not> prefix sm (drop i c)"
    and "s + length sm \<le> e" "e \<le> length c"
    and "\<forall>j. s + length sm \<le> j \<and> j < e \<longrightarrow> \<not> prefix em (drop j c)"
    and "prefix em (drop e c) \<or> e = length c"
  shows "splice_section c sm em r = take s c @ r @ [nl, nl] @ drop e c"
proof -
  have "str_find c sm 0 = int s"
    using assms(1-3) by (simp add: str_find_some)
  moreover have "nat (if str_find c em (s + length sm) = - 1 then int (length c)
                      else str_find c em (s + length sm)) = e"
    using assms(4-7) by (rule end_index_unique)
  ultimately show ?thesis
    by (simp add: splice_section_def Let_def)
qed

text \<open>Splicing into the result of a splice.\<close>

lemma first_start_kept:
  assumes "s \<le> length c" "prefix sm (drop s c)" "\<forall>i<s. \<not> prefix sm (drop i c)"
    and "prefix sm r" and "k < s"
  shows "\<not> prefix sm (drop k (take s c @ r @ t))"
proof
  assume p: "prefix sm (drop k (take s c @ r @ t))"
  from assms(4) obtain r' where r: "r = sm @ r'" by (auto simp: prefix_def)
  from assms(2) obtain y where y: "drop s c = sm @ y" by (auto simp: prefix_def)
  define a where "a = take s c"
  have k: "k \<le> length a" using assms(1,5) by (simp add: a_def)
  have c: "c = a @ sm @ y"
    using y append_take_drop_id [of s c] by (simp add: a_def)
  from p r have "prefix sm (drop k (a @ sm @ r' @ t))" by (simp add: a_def)
  with k have "prefix sm ((drop k a @ sm) @ r' @ t)" by (simp only: drop_append_le append_assoc)
  then have "prefix sm ((drop k a @ sm) @ y)"
    by (rule prefix_short) simp
  moreover have "drop k c = (drop k a @ sm) @ y"
    using k by (simp only: c drop_append_le append_assoc)
  ultimately have "prefix sm (drop k c)" by simp
  with assms(3,5) show False by blast
qed

lemma no_end_before_tail:
  assumes "\<not> sublist em (u @ butlast em)"
    and "prefix em t \<or> t = []"
    and "m < length u"
  shows "\<not> prefix em (drop m (u @ t))"
proof
  assume p: "prefix em (drop m (u @ t))"
  from assms(3) have d: "drop m (u @ t) = drop m u @ t" by simp
  have ne: "em \<noteq> []"
    using assms(1) by auto
  have "prefix em (drop m u @ butlast em)"
  proof (cases "t = []")
    case True
    with p d have "prefix em (drop m u)" by simp
    then show ?thesis by (rule prefix_prefix)
  next
    case False
    with assms(2) obtain t' where "t = em @ t'" by (auto simp: prefix_def)
    with ne have "t = butlast em @ [last em] @ t'" by simp
    with p d have "prefix em ((drop m u @ butlast em) @ [last em] @ t')" by simp
    moreover have "length em \<le> length (drop m u @ butlast em)"
      using assms(3) ne by (simp add: length_butlast) 
    ultimately have "prefix em ((drop m u @ butlast em) @ [])"
      by (rule prefix_short)
    then show ?thesis by simp
  qed
  moreover have "drop m u @ butlast em = drop m (u @ butlast em)"
    using assms(3) by simp
  ultimately have "prefix em (drop m (u @ butlast em))" by simp
  moreover have "m \<le> length (u @ butlast em)" using assms(3) by simp
  ultimately have "sublist em (u @ butlast em)"
    unfolding sublist_iff_prefix_drop by blast
  with assms(1) show False by blast
qed

lemma splice_section_spliced:
  assumes s: "s \<le> length c" "prefix sm (drop s c)" "\<forall>i<s. \<not> prefix sm (drop i c)"
    and r: "prefix sm r"
    and clean: "\<not> sublist em (drop (length sm) r @ [nl, nl] @ butlast em)"
    and t: "prefix em t \<or> t = []"
  shows "splice_section (take s c @ r @ [nl, nl] @ t) sm em x = take s c @ x @ [nl, nl] @ t"
proof -
  define a where "a = take s c"
  define c1 where "c1 = a @ r @ [nl, nl] @ t"
  define e where "e = s + length r + 2"
  from r obtain r' where r': "r = sm @ r'" by (auto simp: prefix_def)
  have la: "length a = s" using s(1) by (simp add: a_def)
  have c1_split: "c1 = (a @ sm) @ (r' @ [nl, nl]) @ t"
    by (simp add: c1_def r')
  have h1: "s \<le> length c1" by (simp add: c1_def la)
  have "drop s c1 = r @ [nl, nl] @ t" by (simp add: c1_def la)
  with r have h2: "prefix sm (drop s c1)" by (simp add: prefix_prefix)
  have h3: "\<forall>i<s. \<not> prefix sm (drop i c1)"
    using first_start_kept [OF s r] by (simp add: c1_def a_def)
  have h4: "s + length sm \<le> e" by (simp add: e_def r')
  have h5: "e \<le> length c1" by (simp add: e_def c1_def la)
  have h6: "\<forall>j. s + length sm \<le> j \<and> j < e \<longrightarrow> \<not> prefix em (drop j c1)"
  proof (intro allI impI)
    fix j assume j: "s + length sm \<le> j \<and> j < e"
    define m where "m = j - (s + length sm)"
    from j have jm: "j = length (a @ sm) + m" by (simp add: m_def la)
    have "length (r' @ [nl, nl]) = length r' + 2" by simp
    moreover from j have "m < length r' + 2" unfolding m_def e_def r' length_append by arith
    ultimately have m: "m < length (r' @ [nl, nl])" by simp
    have "drop j c1 = drop m ((r' @ [nl, nl]) @ t)"
      unfolding c1_split jm by (simp only: drop_append length_append) simp
    moreover have "\<not> sublist em ((r' @ [nl, nl]) @ butlast em)"
      using clean by (simp add: r')
    then have "\<not> prefix em (drop m ((r' @ [nl, nl]) @ t))"
      using t m by (rule no_end_before_tail)
    ultimately show "\<not> prefix em (drop j c1)" by simp
  qed
  have de: "drop e c1 = t" by (simp add: c1_def e_def la)
  have h7: "prefix em (drop e c1) \<or> e = length c1"
  proof (cases "t = []")
    case True
    then show ?thesis by (simp add: e_def c1_def la)
  next
    case False
    with t de show ?thesis by simp
  qed
  have "splice_section c1 sm em x = take s c1 @ x @ [nl, nl] @ drop e c1"
    using h1 h2 h3 h4 h5 h6 h7 by (rule splice_section_found)
  moreover have "take s c1 = a" by (simp add: c1_def la)
  ultimately have "splice_section c1 sm em x = a @ x @ [nl, nl] @ t"
    by (simp only: de)
  then show ?thesis by (simp only: c1_def a_def)
qed

section \<open>The claims about the splice\<close>

text \<open>
  C3. When the start marker does not occur anywhere in the document, the result of the
  splice is the original content, then the two characters \<^verbatim>\<open>"\n\n"\<close>, then the
  replacement section text.
\<close>

theorem splice_section_absent:
  assumes "\<not> sublist sm c"
  shows "splice_section c sm em r = c @ [nl, nl] @ r"
proof -
  from assms have "\<forall>k. 0 \<le> k \<and> k \<le> length c \<longrightarrow> \<not> prefix sm (drop k c)"
    by (simp add: sublist_iff_prefix_drop)
  then have "str_find c sm 0 = - 1"
    by (simp only: str_find_none)
  then show ?thesis by (simp add: splice_section_def)
qed

theorem splice_section_absent_witness:
  "\<not> sublist start_marker (str ''# Notes\<newline>on the build\<newline>'') \<and>
   splice_section (str ''# Notes\<newline>on the build\<newline>'') start_marker end_marker
     (str ''## Dependency Status\<newline>| a | 1 |'') =
   str ''# Notes\<newline>on the build\<newline>\<newline>\<newline>## Dependency Status\<newline>| a | 1 |''"
proof -
  have h: "\<not> sublist start_marker (str ''# Notes\<newline>on the build\<newline>'')"
    by code_simp
  have "str ''# Notes\<newline>on the build\<newline>'' @ [nl, nl] @ str ''## Dependency Status\<newline>| a | 1 |'' =
        str ''# Notes\<newline>on the build\<newline>\<newline>\<newline>## Dependency Status\<newline>| a | 1 |''"
    by (simp add: str_def nl_def)
  with h splice_section_absent [OF h, of end_marker "str ''## Dependency Status\<newline>| a | 1 |''"]
  show ?thesis by simp
qed

text \<open>
  C2. When the start marker occurs in the document and \<open>s\<close> is the position of its first
  occurrence, the end marker is searched from \<open>s + len(start_marker)\<close> on; \<open>e\<close> is the
  position of the first match from there, or the length of the document when there is
  none; and the result is the content before \<open>s\<close>, the replacement, two newlines, and
  the content from \<open>e\<close> on. What lies before \<open>s\<close> and from \<open>e\<close> on is unchanged.
\<close>

theorem splice_section_present:
  assumes "s \<le> length c" "prefix sm (drop s c)" "\<forall>i<s. \<not> prefix sm (drop i c)"
  shows "\<exists>e. s + length sm \<le> e \<and> e \<le> length c \<and>
           (\<forall>j. s + length sm \<le> j \<and> j < e \<longrightarrow> \<not> prefix em (drop j c)) \<and>
           (prefix em (drop e c) \<or>
            (e = length c \<and> (\<forall>j. s + length sm \<le> j \<and> j \<le> length c \<longrightarrow> \<not> prefix em (drop j c)))) \<and>
           splice_section c sm em r = take s c @ r @ [nl, nl] @ drop e c \<and>
           take s (splice_section c sm em r) = take s c \<and>
           drop (s + length r + 2) (splice_section c sm em r) = drop e c"
proof -
  have st: "s + length sm \<le> length c"
    using assms(2,1) by (rule prefix_length_drop)
  from end_index_exists [OF st, of em] obtain e where e:
    "s + length sm \<le> e" "e \<le> length c"
    "\<forall>j. s + length sm \<le> j \<and> j < e \<longrightarrow> \<not> prefix em (drop j c)"
    "prefix em (drop e c) \<or>
       (e = length c \<and> (\<forall>j. s + length sm \<le> j \<and> j \<le> length c \<longrightarrow> \<not> prefix em (drop j c)))"
    by blast
  from e(4) have "prefix em (drop e c) \<or> e = length c" by blast
  with assms e(1-3) have eq: "splice_section c sm em r = take s c @ r @ [nl, nl] @ drop e c"
    by (rule splice_section_found)
  have la: "length (take s c) = s" using assms(1) by simp
  have "take s (take s c @ r @ [nl, nl] @ drop e c) = take s c"
    using la by (metis append_eq_conv_conj)
  moreover have "drop (s + length r + 2) (take s c @ (r @ [nl, nl]) @ drop e c) = drop e c"
  proof -
    have "s + length r + 2 = length (take s c @ (r @ [nl, nl]))" using la by simp
    then show ?thesis by (metis append_assoc append_eq_conv_conj)
  qed
  ultimately show ?thesis using e eq by auto
qed

theorem splice_section_present_witness:
  "\<exists>e. 4 + length start_marker \<le> e \<and> e \<le> length sample_readme \<and>
     (\<forall>j. 4 + length start_marker \<le> j \<and> j < e \<longrightarrow> \<not> prefix end_marker (drop j sample_readme)) \<and>
     (prefix end_marker (drop e sample_readme) \<or>
      (e = length sample_readme \<and>
       (\<forall>j. 4 + length start_marker \<le> j \<and> j \<le> length sample_readme \<longrightarrow>
            \<not> prefix end_marker (drop j sample_readme)))) \<and>
     splice_section sample_readme start_marker end_marker (str ''## Dependency Status\<newline>new'') =
       take 4 sample_readme @ str ''## Dependency Status\<newline>new'' @ [nl, nl] @ drop e sample_readme \<and>
     take 4 (splice_section sample_readme start_marker end_marker (str ''## Dependency Status\<newline>new'')) =
       take 4 sample_readme \<and>
     drop (4 + length (str ''## Dependency Status\<newline>new'') + 2)
       (splice_section sample_readme start_marker end_marker (str ''## Dependency Status\<newline>new'')) =
       drop e sample_readme"
proof -
  have f: "str_find sample_readme start_marker 0 = int 4"
    by (simp add: sample_readme_def start_marker_def str_def str_find_def)
  from iffD1 [OF str_find_some f]
  have h: "4 \<le> length sample_readme" "prefix start_marker (drop 4 sample_readme)"
    "\<forall>i<4. \<not> prefix start_marker (drop i sample_readme)"
    by simp_all
  from splice_section_present [OF h] show ?thesis .
qed

text \<open>
  C4, as the script behaves: on the document \<^verbatim>\<open>"# Title\n\nSome text.\n"\<close> with start
  marker \<^verbatim>\<open>"## Dependency Status"\<close>, end marker \<^verbatim>\<open>"##"\<close> and replacement
  \<^verbatim>\<open>"## Dependency Status\nrow1\nrow2"\<close> the splice gives
  \<^verbatim>\<open>"# Title\n\nSome text.\n\n\n## Dependency Status\nrow1\nrow2"\<close>: the document, two
  newlines, the replacement, and nothing after it.
\<close>

theorem splice_section_example:
  "splice_section (str ''# Title\<newline>\<newline>Some text.\<newline>'') (str ''## Dependency Status'') (str ''##'')
     (str ''## Dependency Status\<newline>row1\<newline>row2'') =
   str ''# Title\<newline>\<newline>Some text.\<newline>\<newline>\<newline>## Dependency Status\<newline>row1\<newline>row2''"
  by (simp add: splice_section_def str_find_def str_def nl_def)

text \<open>The result that the specification gives for this example is not what the splice returns.\<close>

theorem splice_section_example_counterexample:
  "splice_section (str ''# Title\<newline>\<newline>Some text.\<newline>'') (str ''## Dependency Status'') (str ''##'')
     (str ''## Dependency Status\<newline>row1\<newline>row2'') \<noteq>
   str ''# Title\<newline>\<newline>Some text.\<newline>\<newline>## Dependency Status\<newline>row1\<newline>row2\<newline>\<newline>''"
  by (simp add: splice_section_def str_find_def str_def nl_def)

text \<open>
  C1, as the script behaves: when the start marker occurs in the document, the
  replacement begins with the start marker, and the end marker does not occur in what
  follows that leading start marker in the replacement (also not across the two
  newlines and the beginning of the end marker that may come after them), then a second
  splice with the same inputs leaves the content as the first one made it. The region
  that a later splice replaces in that content is exactly the inserted text and its two
  newlines: whatever text \<open>x\<close> is spliced in next takes their place and nothing else
  changes.
\<close>

theorem splice_section_idempotent:
  assumes "s \<le> length c" "prefix sm (drop s c)" "\<forall>i<s. \<not> prefix sm (drop i c)"
    and "prefix sm r"
    and "\<not> sublist em (drop (length sm) r @ [nl, nl] @ butlast em)"
  shows "splice_section (splice_section c sm em r) sm em r = splice_section c sm em r \<and>
         (\<exists>t. splice_section c sm em r = take s c @ (r @ [nl, nl]) @ t \<and>
              (\<forall>x. splice_section (take s c @ (r @ [nl, nl]) @ t) sm em x =
                     take s c @ (x @ [nl, nl]) @ t))"
proof -
  have st: "s + length sm \<le> length c"
    using assms(2,1) by (rule prefix_length_drop)
  from end_index_exists [OF st, of em] obtain e where e:
    "s + length sm \<le> e" "e \<le> length c"
    "\<forall>j. s + length sm \<le> j \<and> j < e \<longrightarrow> \<not> prefix em (drop j c)"
    "prefix em (drop e c) \<or>
       (e = length c \<and> (\<forall>j. s + length sm \<le> j \<and> j \<le> length c \<longrightarrow> \<not> prefix em (drop j c)))"
    by blast
  define t where "t = drop e c"
  from e(4) have e': "prefix em (drop e c) \<or> e = length c" by blast
  with assms(1-3) e(1-3) have "splice_section c sm em r = take s c @ r @ [nl, nl] @ drop e c"
    by (rule splice_section_found)
  then have first: "splice_section c sm em r = take s c @ r @ [nl, nl] @ t"
    by (simp only: t_def)
  from e' have t: "prefix em t \<or> t = []"
    by (auto simp: t_def)
  have again: "splice_section (take s c @ r @ [nl, nl] @ t) sm em x = take s c @ x @ [nl, nl] @ t"
    for x
    using assms t by (rule splice_section_spliced)
  from first again [of r]
  have "splice_section (splice_section c sm em r) sm em r = splice_section c sm em r"
    by simp
  moreover from first have "splice_section c sm em r = take s c @ (r @ [nl, nl]) @ t"
    by simp
  moreover from again
  have "\<forall>x. splice_section (take s c @ (r @ [nl, nl]) @ t) sm em x = take s c @ (x @ [nl, nl]) @ t"
    by simp
  ultimately show ?thesis by blast
qed

theorem splice_section_idempotent_witness:
  "splice_section
     (splice_section sample_readme start_marker end_marker (str ''## Dependency Status\<newline>new''))
     start_marker end_marker (str ''## Dependency Status\<newline>new'') =
   splice_section sample_readme start_marker end_marker (str ''## Dependency Status\<newline>new'') \<and>
   (\<exists>t. splice_section sample_readme start_marker end_marker (str ''## Dependency Status\<newline>new'') =
          take 4 sample_readme @ (str ''## Dependency Status\<newline>new'' @ [nl, nl]) @ t \<and>
        (\<forall>x. splice_section
                (take 4 sample_readme @ (str ''## Dependency Status\<newline>new'' @ [nl, nl]) @ t)
                start_marker end_marker x =
              take 4 sample_readme @ (x @ [nl, nl]) @ t))"
proof -
  have f: "str_find sample_readme start_marker 0 = int 4"
    by (simp add: sample_readme_def start_marker_def str_def str_find_def)
  from iffD1 [OF str_find_some f]
  have h: "4 \<le> length sample_readme" "prefix start_marker (drop 4 sample_readme)"
    "\<forall>i<4. \<not> prefix start_marker (drop i sample_readme)"
    by simp_all
  have p: "prefix start_marker (str ''## Dependency Status\<newline>new'')"
    by code_simp
  have q: "\<not> sublist end_marker
             (drop (length start_marker) (str ''## Dependency Status\<newline>new'') @ [nl, nl] @
              butlast end_marker)"
    by code_simp
  from splice_section_idempotent [OF h p q] show ?thesis .
qed

text \<open>
  Three inputs on which the second splice is not a no-op. On the example document of
  the specification the start marker is absent: the first splice appends the section
  with nothing after it, the second one finds it and puts two newlines behind it. When
  the replacement has the end marker after its leading start marker, the second splice
  stops there and keeps the rest of the first insertion. When the replacement does not
  hold the start marker, the second splice appends it once more.
\<close>

theorem splice_section_idempotent_counterexample:
  "splice_section
     (splice_section (str ''# Title\<newline>\<newline>Some text.\<newline>'') start_marker end_marker
        (str ''## Dependency Status\<newline>row1\<newline>row2''))
     start_marker end_marker (str ''## Dependency Status\<newline>row1\<newline>row2'') \<noteq>
   splice_section (str ''# Title\<newline>\<newline>Some text.\<newline>'') start_marker end_marker
     (str ''## Dependency Status\<newline>row1\<newline>row2'') \<and>
   splice_section
     (splice_section sample_readme start_marker end_marker
        (str ''## Dependency Status\<newline>### Core''))
     start_marker end_marker (str ''## Dependency Status\<newline>### Core'') \<noteq>
   splice_section sample_readme start_marker end_marker
     (str ''## Dependency Status\<newline>### Core'') \<and>
   splice_section
     (splice_section sample_readme start_marker end_marker (str ''no status''))
     start_marker end_marker (str ''no status'') \<noteq>
   splice_section sample_readme start_marker end_marker (str ''no status'')"
  by (simp add: splice_section_def str_find_def str_def nl_def start_marker_def end_marker_def
      sample_readme_def)

section \<open>Facts about the functions of the script\<close>

lemma check_updates_json_eq:
  assumes "poetry_show_outdated env (tool_runs w) = Completed rc (JSON v)"
  shows "check_updates env w =
           (case iterate v of
              Inl e \<Rightarrow> (Inl e, w\<lparr>tool_runs := Suc (tool_runs w)\<rparr>)
            | Inr pkgs \<Rightarrow> (collect pkgs [], w\<lparr>tool_runs := Suc (tool_runs w)\<rparr>))"
  using assms by (simp add: check_updates_def Let_def)

lemma check_updates_keeps:
  "readme (snd (check_updates env w)) = readme w \<and>
   files (snd (check_updates env w)) = files w \<and>
   tool_runs (snd (check_updates env w)) = Suc (tool_runs w)"
  by (simp add: check_updates_def Let_def console_print_def
      split: run_result.splits loads_result.splits sum.splits)

lemma save_report_fields:
  "readme (save_report env p ts w) = readme w"
  "tool_runs (save_report env p ts w) = tool_runs w"
  "files (save_report env p ts w) =
     (files w)(p \<mapsto> \<lparr>timestamp = now_isoformat env, packages = map report_entry ts\<rparr>)"
  by (simp_all add: save_report_def Let_def console_print_def)

lemma generate_dependency_report_ok:
  assumes "check_updates env w = (Inr us, w1)" and "str_triples us = Some ts"
    and "table_print_error env (map table_row ts) = None"
  shows "generate_dependency_report env (Some p) w =
           (Inr (), save_report env p ts (console_print (PrintTable (map table_row ts)) w1))"
  using assms by (simp add: generate_dependency_report_def Let_def)

lemma generate_dependency_report_returns:
  assumes "generate_dependency_report env (Some p) w = (Inr u, w')"
  shows "\<exists>us w1 ts. check_updates env w = (Inr us, w1) \<and> str_triples us = Some ts \<and>
           w' = save_report env p ts (console_print (PrintTable (map table_row ts)) w1)"
  using assms
  by (auto simp: generate_dependency_report_def Let_def
      split: prod.splits sum.splits option.splits)

lemma update_readme_status_missing:
  assumes "readme w = None"
  shows "update_readme_status env w =
           (Inr (), console_print (Print (str ''[red]README.md not found[/red]'')) w)"
  using assms by (simp add: update_readme_status_def)

lemma update_readme_status_ok:
  assumes "readme w = Some file" "check_updates env w = (Inr us, w1)" "str_triples us = Some ts"
    and "read_text file = Inr content"
    and "write_text env (splice_section content start_marker end_marker
                           (join [nl] (status_section env ts))) = Inr written"
  shows "update_readme_status env w =
           (Inr (), console_print (Print (str ''[green]Updated dependency status in README.md[/green]''))
                      (w1\<lparr>readme := Some written\<rparr>))"
  using assms by (simp add: update_readme_status_def Let_def)

lemma universal_newlines_id:
  "13 \<notin> set t \<Longrightarrow> universal_newlines t = t"
  by (induction t rule: universal_newlines.induct) auto

lemma write_newlines_posix:
  "write_newlines [nl] t = t"
  by (induction t) (simp_all add: write_newlines_def)





lemma main_unfold:
  "main env w =
     (case generate_dependency_report env (Some (report_path env))
             (console_print
                (Print (nl # str ''[bold]Document Processing Platform - Dependency Management[/bold]'' @ [nl]))
                w) of
        (Inl e, w1) \<Rightarrow> (Inl e, w1)
      | (Inr u, w1) \<Rightarrow>
          (case update_readme_status env w1 of
             (Inl e, w2) \<Rightarrow> (Inl e, w2)
           | (Inr u', w2) \<Rightarrow>
               (Inr (),
                console_print (Print (str ''2. Updated README.md with current status''))
                  (console_print (Print (str ''1. Generated dependency report: '' @ report_path env))
                     (console_print
                        (Print (nl # str ''[green]Dependency management tasks completed:[/green]''))
                        w2)))))"
  by (simp add: main_def Let_def)

lemma console_print_fields:
  "readme (console_print e w) = readme w"
  "files (console_print e w) = files w"
  "tool_runs (console_print e w) = tool_runs w"
  "console (console_print e w) = console w @ [e]"
  by (simp_all add: console_print_def)

lemma check_updates_array:
  assumes "poetry_show_outdated env (tool_runs w) = Completed rc (JSON (JArr pkgs))"
    and "collect pkgs [] = Inr us"
  shows "check_updates env w = (Inr us, w\<lparr>tool_runs := Suc (tool_runs w)\<rparr>)"
  using assms by (simp add: check_updates_json_eq)




lemma sample_section_empty:
  "join [nl] (status_section (sample_env r1 r2) []) =
     str ''## Dependency Status (Updated: 2024-01-02)\<newline>\<newline>### Core Dependencies\<newline>| Package | Version | Status |\<newline>|---------|---------|--------|''"
  by (simp add: status_section_def sample_env_def str_def nl_def)

lemma sample_env_fields:
  "table_print_error (sample_env r1 r2) rows = None"
  "linesep (sample_env r1 r2) = [nl]"
  "encodable (sample_env r1 r2) c = (c < 55296 \<or> 57343 < c)"
  "now_isoformat (sample_env r1 r2) = str ''2024-01-02T03:04:05''"
  "poetry_show_outdated (sample_env r1 r2) 0 = r1"
  "poetry_show_outdated (sample_env r1 r2) (Suc n) = r2"
  by (simp_all add: sample_env_def)

section \<open>The claims about the query, the report and the run\<close>

text \<open>
  C5. For every sequence of (name, current, latest) triples given to the report writer,
  the \<^verbatim>\<open>packages\<close> array of the written report has the length and the order of the
  sequence, every entry carries \<^verbatim>\<open>name\<close>, \<^verbatim>\<open>current\<close>, \<^verbatim>\<open>latest\<close> and
  \<^verbatim>\<open>needs_update\<close>, the last being true exactly when \<^verbatim>\<open>current\<close> and \<^verbatim>\<open>latest\<close> differ
  as strings, and whatever the file at the target path held before is replaced, not
  merged.
\<close>

theorem save_report_reflects_updates:
  "\<exists>r. files (save_report env path updates w) path = Some r \<and>
       length (packages r) = length updates \<and>
       (\<forall>i<length updates.
          name (packages r ! i) = fst (updates ! i) \<and>
          current (packages r ! i) = fst (snd (updates ! i)) \<and>
          latest (packages r ! i) = snd (snd (updates ! i)) \<and>
          (needs_update (packages r ! i) \<longleftrightarrow> fst (snd (updates ! i)) \<noteq> snd (snd (updates ! i)))) \<and>
       (\<forall>old. files (save_report env path updates (w\<lparr>files := (files w)(path \<mapsto> old)\<rparr>)) path = Some r)"
proof -
  define r where "r = \<lparr>timestamp = now_isoformat env, packages = map report_entry updates\<rparr>"
  have "files (save_report env path updates w') path = Some r" for w'
    by (simp add: save_report_fields r_def)
  moreover have "length (packages r) = length updates"
    by (simp add: r_def)
  moreover have "\<forall>i<length updates.
          name (packages r ! i) = fst (updates ! i) \<and>
          current (packages r ! i) = fst (snd (updates ! i)) \<and>
          latest (packages r ! i) = snd (snd (updates ! i)) \<and>
          (needs_update (packages r ! i) \<longleftrightarrow> fst (snd (updates ! i)) \<noteq> snd (snd (updates ! i)))"
    by (simp add: r_def report_entry_def case_prod_beta)
  ultimately show ?thesis by blast
qed

theorem save_report_reflects_updates_witness:
  "\<exists>r. files (save_report (sample_env CommandNotFound CommandNotFound) (str ''out.json'')
                 [(str ''a'', str ''1'', str ''2''), (str ''b'', str ''3'', str ''3'')]
                 (sample_world None)) (str ''out.json'') = Some r \<and>
       length (packages r) = length [(str ''a'', str ''1'', str ''2''), (str ''b'', str ''3'', str ''3'')] \<and>
       name (packages r ! 0) = str ''a'' \<and> needs_update (packages r ! 0) \<and>
       name (packages r ! 1) = str ''b'' \<and> \<not> needs_update (packages r ! 1)"
proof -
  from save_report_reflects_updates
    [of "sample_env CommandNotFound CommandNotFound" "str ''out.json''"
        "[(str ''a'', str ''1'', str ''2''), (str ''b'', str ''3'', str ''3'')]" "sample_world None"]
  obtain r where r:
    "files (save_report (sample_env CommandNotFound CommandNotFound) (str ''out.json'')
                 [(str ''a'', str ''1'', str ''2''), (str ''b'', str ''3'', str ''3'')]
                 (sample_world None)) (str ''out.json'') = Some r"
    "length (packages r) = length [(str ''a'', str ''1'', str ''2''), (str ''b'', str ''3'', str ''3'')]"
    "\<forall>i<length [(str ''a'', str ''1'', str ''2''), (str ''b'', str ''3'', str ''3'')].
          name (packages r ! i) = fst ([(str ''a'', str ''1'', str ''2''), (str ''b'', str ''3'', str ''3'')] ! i) \<and>
          current (packages r ! i) = fst (snd ([(str ''a'', str ''1'', str ''2''), (str ''b'', str ''3'', str ''3'')] ! i)) \<and>
          latest (packages r ! i) = snd (snd ([(str ''a'', str ''1'', str ''2''), (str ''b'', str ''3'', str ''3'')] ! i)) \<and>
          (needs_update (packages r ! i) \<longleftrightarrow>
             fst (snd ([(str ''a'', str ''1'', str ''2''), (str ''b'', str ''3'', str ''3'')] ! i)) \<noteq>
             snd (snd ([(str ''a'', str ''1'', str ''2''), (str ''b'', str ''3'', str ''3'')] ! i)))"
    by blast
  from r(3) have "name (packages r ! 0) = str ''a''" "needs_update (packages r ! 0)"
    by (simp_all add: str_def)
  moreover from r(3) have "name (packages r ! 1) = str ''b''" "\<not> needs_update (packages r ! 1)"
    by (simp_all add: str_def)
  ultimately show ?thesis using r(1,2) by blast
qed

text \<open>
  C6, as the script behaves: when \<^verbatim>\<open>json.loads\<close> raises \<^verbatim>\<open>JSONDecodeError\<close> on the
  standard output of the external command (such output is never valid JSON text),
  \<^verbatim>\<open>check_updates\<close> returns the empty list, prints a diagnostic, and raises nothing.
\<close>

theorem check_updates_json_decode_error:
  assumes "poetry_show_outdated env (tool_runs w) = Completed rc out"
    and "json_loads out = JSONDecodeError"
  shows "\<not> valid_json out \<and>
         check_updates env w =
           (Inr [],
            w\<lparr>tool_runs := Suc (tool_runs w),
              console := console w @ [Print (str ''[red]Error parsing poetry output[/red]'')]\<rparr>)"
proof -
  from assms(2) have "\<not> valid_json out" by (cases out) simp_all
  moreover from assms have "check_updates env w =
           (Inr [],
            w\<lparr>tool_runs := Suc (tool_runs w),
              console := console w @ [Print (str ''[red]Error parsing poetry output[/red]'')]\<rparr>)"
    by (simp add: check_updates_def Let_def console_print_def)
  ultimately show ?thesis by blast
qed

theorem check_updates_json_decode_error_witness:
  "poetry_show_outdated (sample_env (Completed 0 Rejected) CommandNotFound)
     (tool_runs (sample_world None)) = Completed 0 Rejected \<and>
   json_loads Rejected = JSONDecodeError \<and>
   fst (check_updates (sample_env (Completed 0 Rejected) CommandNotFound) (sample_world None)) = Inr [] \<and>
   console (snd (check_updates (sample_env (Completed 0 Rejected) CommandNotFound) (sample_world None))) =
     [Print (str ''[red]Error parsing poetry output[/red]'')]"
proof -
  have h: "poetry_show_outdated (sample_env (Completed 0 Rejected) CommandNotFound)
     (tool_runs (sample_world None)) = Completed 0 Rejected"
    by (simp add: sample_env_def sample_world_def)
  have l: "json_loads Rejected = JSONDecodeError" by simp
  from check_updates_json_decode_error [OF h l] h l show ?thesis
    by (simp add: sample_world_def)
qed

text \<open>
  Standard output that is not valid JSON text and on which the query does not recover.
  The text \<^verbatim>\<open>NaN\<close> is decoded to a float, and iterating it raises \<^verbatim>\<open>TypeError\<close>. Text
  that is nested too deeply makes \<^verbatim>\<open>json.loads\<close> raise \<^verbatim>\<open>RecursionError\<close>. Bytes that are
  no text at all make \<^verbatim>\<open>subprocess.run\<close> raise \<^verbatim>\<open>UnicodeDecodeError\<close>. An array with a
  well-formed package object that also holds \<^verbatim>\<open>NaN\<close> is decoded and gives a sequence
  that is not empty, with no diagnostic.
\<close>

theorem check_updates_json_decode_error_counterexample:
  "\<not> valid_json (NonStandard (JNum (str ''NaN''))) \<and>
   fst (check_updates (sample_env (Completed 0 (NonStandard (JNum (str ''NaN'')))) CommandNotFound)
          (sample_world None)) = Inl TypeError \<and>
   \<not> valid_json (LoadsRaises RecursionError False) \<and>
   fst (check_updates (sample_env (Completed 0 (LoadsRaises RecursionError False)) CommandNotFound)
          (sample_world None)) = Inl RecursionError \<and>
   fst (check_updates (sample_env OutputNotDecodable CommandNotFound) (sample_world None)) =
     Inl UnicodeDecodeError \<and>
   \<not> valid_json (NonStandard (JArr [JObj [(str ''name'', JStr (str ''a'')),
                                           (str ''version'', JStr (str ''1'')),
                                           (str ''latest'', JStr (str ''2'')),
                                           (str ''weight'', JNum (str ''NaN''))]])) \<and>
   check_updates
     (sample_env (Completed 0 (NonStandard (JArr [JObj [(str ''name'', JStr (str ''a'')),
                                                        (str ''version'', JStr (str ''1'')),
                                                        (str ''latest'', JStr (str ''2'')),
                                                        (str ''weight'', JNum (str ''NaN''))]])))
        CommandNotFound)
     (sample_world None) =
     (Inr [(JStr (str ''a''), JStr (str ''1''), JStr (str ''2''))],
      sample_world None\<lparr>tool_runs := 1\<rparr>)"
  by (simp add: check_updates_def sample_env_def sample_world_def Let_def str_def)

text \<open>
  C7, as the script behaves: when the command runs and \<^verbatim>\<open>json.loads\<close> raises
  \<^verbatim>\<open>JSONDecodeError\<close> on its standard output, then whatever its exit status the query
  yields the empty list, prints the diagnostic and returns. The exit status is never
  looked at: two runs of the tool with the same output and different exit statuses give
  the same result. When the command is not found, \<^verbatim>\<open>FileNotFoundError\<close> leaves the
  query.
\<close>

theorem check_updates_tool_failures:
  assumes "poetry_show_outdated env (tool_runs w) = Completed rc out"
  shows "(json_loads out = JSONDecodeError \<longrightarrow>
            check_updates env w =
              (Inr [],
               w\<lparr>tool_runs := Suc (tool_runs w),
                 console := console w @ [Print (str ''[red]Error parsing poetry output[/red]'')]\<rparr>)) \<and>
         (\<forall>env' rc'. poetry_show_outdated env' (tool_runs w) = Completed rc' out \<longrightarrow>
            check_updates env' w = check_updates env w) \<and>
         (\<forall>env'. poetry_show_outdated env' (tool_runs w) = CommandNotFound \<longrightarrow>
            check_updates env' w = (Inl FileNotFoundError, w\<lparr>tool_runs := Suc (tool_runs w)\<rparr>))"
  using assms by (simp add: check_updates_def Let_def console_print_def)

theorem check_updates_tool_failures_witness:
  "json_loads Rejected = JSONDecodeError \<and>
   fst (check_updates (sample_env (Completed 1 Rejected) CommandNotFound) (sample_world None)) = Inr [] \<and>
   check_updates (sample_env (Completed 0 Rejected) CommandNotFound) (sample_world None) =
     check_updates (sample_env (Completed 1 Rejected) CommandNotFound) (sample_world None) \<and>
   fst (check_updates (sample_env CommandNotFound CommandNotFound) (sample_world None)) =
     Inl FileNotFoundError"
proof -
  have h: "poetry_show_outdated (sample_env (Completed 1 Rejected) CommandNotFound)
     (tool_runs (sample_world None)) = Completed 1 Rejected"
    by (simp add: sample_env_def sample_world_def)
  have h0: "poetry_show_outdated (sample_env (Completed 0 Rejected) CommandNotFound)
     (tool_runs (sample_world None)) = Completed 0 Rejected"
    by (simp add: sample_env_def sample_world_def)
  have hm: "poetry_show_outdated (sample_env CommandNotFound CommandNotFound)
     (tool_runs (sample_world None)) = CommandNotFound"
    by (simp add: sample_env_def sample_world_def)
  from check_updates_tool_failures [OF h] h0 hm show ?thesis
    by simp
qed

text \<open>
  A missing command is not recovered: the query raises instead of yielding an empty
  result, and prints no diagnostic.
\<close>

theorem check_updates_tool_failures_counterexample:
  "poetry_show_outdated (sample_env CommandNotFound CommandNotFound) 0 = CommandNotFound \<and>
   fst (check_updates (sample_env CommandNotFound CommandNotFound) (sample_world None)) \<noteq> Inr [] \<and>
   fst (check_updates (sample_env CommandNotFound CommandNotFound) (sample_world None)) =
     Inl FileNotFoundError \<and>
   console (snd (check_updates (sample_env CommandNotFound CommandNotFound) (sample_world None))) = []"
  by (simp add: check_updates_def sample_env_def sample_world_def Let_def)

text \<open>
  C10. There is output of the external command that is valid JSON and makes an exception
  leave \<^verbatim>\<open>check_updates\<close>: an array with an object that lacks \<^verbatim>\<open>"latest"\<close> raises
  \<^verbatim>\<open>KeyError\<close>; an array of arrays, a number and an object at the top level raise
  \<^verbatim>\<open>TypeError\<close>. Nothing in \<^verbatim>\<open>main\<close> catches it, so the run ends with it.
\<close>

theorem check_updates_wrong_shape_raises:
  "fst (check_updates
          (sample_env (Completed 0 (JSON (JArr [JObj [(str ''name'', JStr (str ''a'')),
                                                      (str ''version'', JStr (str ''1''))]])))
             CommandNotFound)
          (sample_world None)) = Inl KeyError \<and>
   fst (check_updates (sample_env (Completed 0 (JSON (JArr [JArr []]))) CommandNotFound)
          (sample_world None)) = Inl TypeError \<and>
   fst (check_updates (sample_env (Completed 0 (JSON (JNum (str ''5'')))) CommandNotFound)
          (sample_world None)) = Inl TypeError \<and>
   fst (check_updates (sample_env (Completed 0 (JSON (JObj [(str ''packages'', JArr [])]))) CommandNotFound)
          (sample_world None)) = Inl TypeError \<and>
   fst (main
          (sample_env (Completed 0 (JSON (JArr [JObj [(str ''name'', JStr (str ''a'')),
                                                      (str ''version'', JStr (str ''1''))]])))
             CommandNotFound)
          (sample_world None)) = Inl KeyError"
  by (simp add: main_def generate_dependency_report_def check_updates_def sample_env_def
      sample_world_def console_print_def Let_def str_def)




text \<open>
  C9. When \<^verbatim>\<open>README.md\<close> does not exist, \<^verbatim>\<open>update_readme_status\<close> prints a diagnostic
  and returns; it creates no document, changes no file and does not run the tool. The
  rest of the run goes on as it would: once the report step has returned, \<^verbatim>\<open>main\<close>
  returns normally, the report file is there, and there is still no \<^verbatim>\<open>README.md\<close>.
\<close>

theorem missing_readme_skips_update:
  assumes "readme w = None"
  shows "update_readme_status env w =
           (Inr (), w\<lparr>console := console w @ [Print (str ''[red]README.md not found[/red]'')]\<rparr>) \<and>
         (\<forall>w1. generate_dependency_report env (Some (report_path env))
                  (console_print
                     (Print (nl # str ''[bold]Document Processing Platform - Dependency Management[/bold]'' @ [nl]))
                     w) = (Inr (), w1) \<longrightarrow>
               fst (main env w) = Inr () \<and>
               readme (snd (main env w)) = None \<and>
               files (snd (main env w)) = files w1 \<and>
               files w1 (report_path env) \<noteq> None \<and>
               tool_runs (snd (main env w)) = tool_runs w1 \<and>
               Print (str ''[red]README.md not found[/red]'') \<in> set (console (snd (main env w))))"
proof -
  have first: "update_readme_status env w =
           (Inr (), w\<lparr>console := console w @ [Print (str ''[red]README.md not found[/red]'')]\<rparr>)"
    using assms by (simp add: update_readme_status_def console_print_def)
  have second: "fst (main env w) = Inr () \<and>
               readme (snd (main env w)) = None \<and>
               files (snd (main env w)) = files w1 \<and>
               files w1 (report_path env) \<noteq> None \<and>
               tool_runs (snd (main env w)) = tool_runs w1 \<and>
               Print (str ''[red]README.md not found[/red]'') \<in> set (console (snd (main env w)))"
    if g: "generate_dependency_report env (Some (report_path env))
                  (console_print
                     (Print (nl # str ''[bold]Document Processing Platform - Dependency Management[/bold]'' @ [nl]))
                     w) = (Inr (), w1)" for w1
  proof -
    from generate_dependency_report_returns [OF g] obtain us w0 ts where
      c: "check_updates env (console_print
                     (Print (nl # str ''[bold]Document Processing Platform - Dependency Management[/bold]'' @ [nl]))
                     w) = (Inr us, w0)"
      and w1: "w1 = save_report env (report_path env) ts (console_print (PrintTable (map table_row ts)) w0)"
      by blast
    from check_updates_keeps [of env "console_print
                     (Print (nl # str ''[bold]Document Processing Platform - Dependency Management[/bold]'' @ [nl]))
                     w"] c assms
    have "readme w0 = None" by (simp add: console_print_fields)
    then have r1: "readme w1 = None"
      by (simp add: w1 save_report_fields console_print_fields)
    have f1: "files w1 (report_path env) \<noteq> None"
      by (simp add: w1 save_report_fields)
    from r1 have u: "update_readme_status env w1 =
        (Inr (), console_print (Print (str ''[red]README.md not found[/red]'')) w1)"
      by (rule update_readme_status_missing)
    have m: "main env w =
      (Inr (),
       console_print (Print (str ''2. Updated README.md with current status''))
         (console_print (Print (str ''1. Generated dependency report: '' @ report_path env))
            (console_print
               (Print (nl # str ''[green]Dependency management tasks completed:[/green]''))
               (console_print (Print (str ''[red]README.md not found[/red]'')) w1))))"
      by (simp add: main_unfold g u)
    show ?thesis
      using r1 f1 by (simp add: m console_print_fields)
  qed
  from first second show ?thesis by blast
qed

theorem missing_readme_skips_update_witness:
  "readme (sample_world None) = None \<and>
   fst (update_readme_status
          (sample_env (Completed 0 (JSON (JArr [package_object ''a'' ''1'' ''2'']))) CommandNotFound)
          (sample_world None)) = Inr () \<and>
   console (snd (update_readme_status
          (sample_env (Completed 0 (JSON (JArr [package_object ''a'' ''1'' ''2'']))) CommandNotFound)
          (sample_world None))) = [Print (str ''[red]README.md not found[/red]'')] \<and>
   fst (main (sample_env (Completed 0 (JSON (JArr [package_object ''a'' ''1'' ''2'']))) CommandNotFound)
          (sample_world None)) = Inr () \<and>
   readme (snd (main (sample_env (Completed 0 (JSON (JArr [package_object ''a'' ''1'' ''2'']))) CommandNotFound)
          (sample_world None))) = None \<and>
   tool_runs (snd (main (sample_env (Completed 0 (JSON (JArr [package_object ''a'' ''1'' ''2'']))) CommandNotFound)
          (sample_world None))) = 1"
proof -
  define E where "E = sample_env (Completed 0 (JSON (JArr [package_object ''a'' ''1'' ''2'']))) CommandNotFound"
  define W where "W = sample_world None"
  define b where "b = console_print
      (Print (nl # str ''[bold]Document Processing Platform - Dependency Management[/bold]'' @ [nl])) W"
  define w1 where "w1 = save_report E (report_path E) [(str ''a'', str ''1'', str ''2'')]
      (console_print (PrintTable (map table_row [(str ''a'', str ''1'', str ''2'')]))
         (b\<lparr>tool_runs := Suc (tool_runs b)\<rparr>))"
  have h: "readme W = None" by (simp add: W_def sample_world_def)
  have q: "poetry_show_outdated E (tool_runs b) =
             Completed 0 (JSON (JArr [package_object ''a'' ''1'' ''2'']))"
    by (simp add: E_def b_def W_def sample_env_def sample_world_def console_print_def)
  have c: "collect [package_object ''a'' ''1'' ''2''] [] =
             Inr [(JStr (str ''a''), JStr (str ''1''), JStr (str ''2''))]"
    by (simp add: package_object_def str_def)
  have s: "str_triples [(JStr (str ''a''), JStr (str ''1''), JStr (str ''2''))] =
             Some [(str ''a'', str ''1'', str ''2'')]"
    by simp
  have "check_updates E b =
          (Inr [(JStr (str ''a''), JStr (str ''1''), JStr (str ''2''))], b\<lparr>tool_runs := Suc (tool_runs b)\<rparr>)"
    using q c by (rule check_updates_array)
  moreover have "table_print_error E (map table_row [(str ''a'', str ''1'', str ''2'')]) = None"
    unfolding E_def by (rule sample_env_fields)
  ultimately have g: "generate_dependency_report E (Some (report_path E)) b = (Inr (), w1)"
    unfolding w1_def using s by (intro generate_dependency_report_ok)
  have tr: "tool_runs w1 = 1"
    by (simp add: w1_def b_def W_def sample_world_def save_report_fields console_print_fields)
  from missing_readme_skips_update [OF h, of E] g [unfolded b_def] h tr
  show ?thesis
    unfolding E_def [symmetric] W_def [symmetric]
    by (simp add: W_def sample_world_def)
qed

text \<open>
  The section that the script itself renders has the heading \<^verbatim>\<open>### Core Dependencies\<close>
  after its first line, and the end marker \<^verbatim>\<open>##\<close> matches there. A second update of
  a README, with the same tool output on the same day, therefore keeps the rest of the
  old section behind the new one.
\<close>

lemma readme_grows_on_second_run:
  "readme (snd (update_readme_status
                  (sample_env (Completed 0 (JSON (JArr []))) (Completed 0 (JSON (JArr []))))
                  (sample_world (Some sample_readme)))) =
     Some (Decodes (str ''# T\<newline>## Dependency Status (Updated: 2024-01-02)\<newline>\<newline>### Core Dependencies\<newline>| Package | Version | Status |\<newline>|---------|---------|--------|\<newline>\<newline>## Other\<newline>keep'')) \<and>
   readme (snd (update_readme_status
                  (sample_env (Completed 0 (JSON (JArr []))) (Completed 0 (JSON (JArr []))))
                  (snd (update_readme_status
                          (sample_env (Completed 0 (JSON (JArr []))) (Completed 0 (JSON (JArr []))))
                          (sample_world (Some sample_readme)))))) =
     Some (Decodes (str ''# T\<newline>## Dependency Status (Updated: 2024-01-02)\<newline>\<newline>### Core Dependencies\<newline>| Package | Version | Status |\<newline>|---------|---------|--------|\<newline>\<newline>### Core Dependencies\<newline>| Package | Version | Status |\<newline>|---------|---------|--------|\<newline>\<newline>## Other\<newline>keep''))"
proof -
  define E where "E = sample_env (Completed 0 (JSON (JArr []))) (Completed 0 (JSON (JArr [])))"
  define W where "W = sample_world (Some sample_readme)"
  define sec where "sec = str ''## Dependency Status (Updated: 2024-01-02)\<newline>\<newline>### Core Dependencies\<newline>| Package | Version | Status |\<newline>|---------|---------|--------|''"
  define once where "once = str ''# T\<newline>## Dependency Status (Updated: 2024-01-02)\<newline>\<newline>### Core Dependencies\<newline>| Package | Version | Status |\<newline>|---------|---------|--------|\<newline>\<newline>## Other\<newline>keep''"
  define twice where "twice = str ''# T\<newline>## Dependency Status (Updated: 2024-01-02)\<newline>\<newline>### Core Dependencies\<newline>| Package | Version | Status |\<newline>|---------|---------|--------|\<newline>\<newline>### Core Dependencies\<newline>| Package | Version | Status |\<newline>|---------|---------|--------|\<newline>\<newline>## Other\<newline>keep''"
  have q: "poetry_show_outdated E n = Completed 0 (JSON (JArr []))" for n
    by (simp add: E_def sample_env_def)
  have c: "check_updates E w = (Inr [], w\<lparr>tool_runs := Suc (tool_runs w)\<rparr>)" for w
    using q [of "tool_runs w"] by (rule check_updates_array) simp
  have s: "join [nl] (status_section E []) = sec"
    unfolding E_def sec_def by (rule sample_section_empty)
  have s1: "splice_section sample_readme start_marker end_marker sec = once"
    by (simp add: splice_section_def str_find_def start_marker_def end_marker_def str_def nl_def
        sample_readme_def sec_def once_def)
  have s2: "splice_section once start_marker end_marker sec = twice"
    by (simp add: splice_section_def str_find_def start_marker_def end_marker_def str_def nl_def
        sec_def once_def twice_def)
  have n1: "universal_newlines sample_readme = sample_readme"
    by (rule universal_newlines_id) (simp add: sample_readme_def str_def)
  have n2: "universal_newlines once = once"
    by (rule universal_newlines_id) (simp add: once_def str_def)
  have e1: "list_all (encodable E) once"
    by (simp add: E_def sample_env_def once_def str_def)
  have e2: "list_all (encodable E) twice"
    by (simp add: E_def sample_env_def twice_def str_def)
  have l: "linesep E = [nl]" by (simp add: E_def sample_env_def)
  have wr1: "write_text E (splice_section sample_readme start_marker end_marker
               (join [nl] (status_section E []))) = Inr (Decodes once)"
    using e1 by (simp add: write_text_def s s1 l write_newlines_posix)
  have wr2: "write_text E (splice_section once start_marker end_marker
               (join [nl] (status_section E []))) = Inr (Decodes twice)"
    using e2 by (simp add: write_text_def s s2 l write_newlines_posix)
  have rd1: "read_text (Decodes sample_readme) = Inr sample_readme" by (simp add: n1)
  have rd2: "read_text (Decodes once) = Inr once" by (simp add: n2)
  have w: "readme W = Some (Decodes sample_readme)" by (simp add: W_def sample_world_def)
  have "str_triples [] = Some []" by simp
  from update_readme_status_ok [OF w c this rd1 wr1]
  have r1: "readme (snd (update_readme_status E W)) = Some (Decodes once)"
    by (simp add: console_print_fields)
  have "str_triples [] = Some []" by simp
  from update_readme_status_ok [OF r1 c this rd2 wr2]
  have r2: "readme (snd (update_readme_status E (snd (update_readme_status E W)))) =
              Some (Decodes twice)"
    by (simp add: console_print_fields)
  from r1 r2 show ?thesis
    unfolding E_def [symmetric] W_def [symmetric] once_def twice_def by (rule conjI)
qed

end
